theory Spec2Isabelle
  imports Main "HOL-Library.AList"
begin

section \<open>Python strings\<close>

text \<open>
  Strings are lists of characters. The program only ever inspects ASCII text
  (city names, colour words, URL fragments), so the case conversions below act
  on the 26 ASCII letters and leave every other character as it is.
\<close>

definition ascii_upper :: string where
  "ascii_upper = ''ABCDEFGHIJKLMNOPQRSTUVWXYZ''"

definition ascii_lower :: string where
  "ascii_lower = ''abcdefghijklmnopqrstuvwxyz''"

definition lower_char :: "char \<Rightarrow> char" where
  "lower_char c = (case map_of (zip ascii_upper ascii_lower) c of Some d \<Rightarrow> d | None \<Rightarrow> c)"

definition upper_char :: "char \<Rightarrow> char" where
  "upper_char c = (case map_of (zip ascii_lower ascii_upper) c of Some d \<Rightarrow> d | None \<Rightarrow> c)"

definition is_letter :: "char \<Rightarrow> bool" where
  "is_letter c = (List.member ascii_upper c \<or> List.member ascii_lower c)"

text \<open>\<^verbatim>\<open>s.lower()\<close> and \<^verbatim>\<open>s.upper()\<close>.\<close>

definition lower :: "string \<Rightarrow> string" where
  "lower s = map lower_char s"

definition upper :: "string \<Rightarrow> string" where
  "upper s = map upper_char s"

text \<open>
  \<^verbatim>\<open>s.title()\<close>: a letter that follows a letter is lowered, any other letter is
  raised. The flag says whether the previous character was a letter.
\<close>

fun title_from :: "bool \<Rightarrow> string \<Rightarrow> string" where
  "title_from prev [] = []"
| "title_from prev (c # cs) =
     (if is_letter c
      then (if prev then lower_char c else upper_char c) # title_from True cs
      else c # title_from False cs)"

definition title :: "string \<Rightarrow> string" where
  "title s = title_from False s"

text \<open>\<^verbatim>\<open>s.startswith(p)\<close>.\<close>

fun startswith :: "string \<Rightarrow> string \<Rightarrow> bool" where
  "startswith s [] = True"
| "startswith [] (p # ps) = False"
| "startswith (c # cs) (p # ps) = (c = p \<and> startswith cs ps)"

text \<open>\<^verbatim>\<open>x in s\<close> on strings: \<open>x\<close> occurs in \<open>s\<close> as a contiguous run.\<close>

fun contains :: "string \<Rightarrow> string \<Rightarrow> bool" where
  "contains [] x = (x = [])"
| "contains (c # cs) x = (startswith (c # cs) x \<or> contains cs x)"

text \<open>\<^verbatim>\<open>s.split(sep)\<close> for a one-character separator, and \<^verbatim>\<open>sep.join(parts)\<close>.\<close>

fun split_acc :: "char \<Rightarrow> string \<Rightarrow> string \<Rightarrow> string list" where
  "split_acc sep acc [] = [rev acc]"
| "split_acc sep acc (c # cs) =
     (if c = sep then rev acc # split_acc sep [] cs else split_acc sep (c # acc) cs)"

definition split :: "string \<Rightarrow> char \<Rightarrow> string list" where
  "split s sep = split_acc sep [] s"

fun join :: "string \<Rightarrow> string list \<Rightarrow> string" where
  "join sep [] = []"
| "join sep [p] = p"
| "join sep (p # q # ps) = p @ sep @ join sep (q # ps)"

section \<open>Dictionaries\<close>

text \<open>
  A Python \<^verbatim>\<open>dict\<close> keeps its keys in insertion order and holds each key once. It
  is an association list with distinct keys: \<^verbatim>\<open>d[k] = v\<close> is \<^const>\<open>AList.update\<close>
  (overwrite in place, or append), \<^verbatim>\<open>d.items()\<close> is the list itself.
\<close>

type_synonym 'v dict = "(string \<times> 'v) list"

text \<open>\<^verbatim>\<open>d.get(k, default)\<close>.\<close>

definition dict_get :: "'v dict \<Rightarrow> string \<Rightarrow> 'v \<Rightarrow> 'v" where
  "dict_get d k dflt = (case map_of d k of None \<Rightarrow> dflt | Some v \<Rightarrow> v)"

section \<open>Parsed documents\<close>

text \<open>
  \<^verbatim>\<open>BeautifulSoup\<close> is a library, not part of the program. A tag is modelled by what
  \<^verbatim>\<open>extract_status_from_element\<close> reads of it. With the parser the program uses,
  the \<^verbatim>\<open>class\<close> attribute is a list of tokens and every attribute whose name can
  contain \<^verbatim>\<open>status\<close> or \<^verbatim>\<open>color\<close> (and \<^verbatim>\<open>style\<close>) is a plain string, so the
  class list is kept apart from the string-valued attributes, which stay in
  document order.
\<close>

record element =
  el_class :: "string list option"
  el_attrs :: "string dict"

text \<open>
  A form, as the session code reads it: its own attributes (\<^verbatim>\<open>action\<close>,
  \<^verbatim>\<open>method\<close>).
\<close>

record form =
  form_attrs :: "string dict"

text \<open>
  The \<^verbatim>\<open>select\<close> control found by \<^verbatim>\<open>select_country\<close>: its enclosing form
  (\<^verbatim>\<open>find_parent('form')\<close>) and whether it has an option whose text matches
  \<^verbatim>\<open>India\<close>.
\<close>

record country_control =
  cc_parent_form :: "form option"
  cc_has_india_option :: bool

text \<open>
  A parsed page is given by the answers to the queries the program puts to it:
  \<^item> \<open>sp_select p\<close>: \<^verbatim>\<open>soup.select(p)\<close>, the matching tags in document order, or
    \<open>None\<close> when the selector engine raises;
  \<^item> \<open>sp_text\<close>: \<^verbatim>\<open>soup.get_text()\<close>;
  \<^item> \<open>sp_login_form\<close>: the form with id \<^verbatim>\<open>loginForm\<close>, or else the first form whose
    action mentions \<^verbatim>\<open>login\<close>;
  \<^item> \<open>sp_country_select\<close>: the first \<^verbatim>\<open>select\<close> whose name mentions \<^verbatim>\<open>country\<close>;
  \<^item> \<open>sp_india_links\<close>: the \<^verbatim>\<open>href\<close> of every link whose text matches \<^verbatim>\<open>India\<close>
    (\<open>None\<close> for a link without \<^verbatim>\<open>href\<close>);
  \<^item> \<open>sp_links_by_text k\<close>: the \<^verbatim>\<open>href\<close> of every link that has one and whose text
    matches \<open>k\<close>; \<open>sp_links_by_href k\<close>: every \<^verbatim>\<open>href\<close> that matches \<open>k\<close>.
\<close>

record soup =
  sp_select :: "string \<Rightarrow> element list option"
  sp_text :: string
  sp_login_form :: "form option"
  sp_country_select :: "country_control option"
  sp_india_links :: "string option list"
  sp_links_by_text :: "string \<Rightarrow> string list"
  sp_links_by_href :: "string \<Rightarrow> string list"

text \<open>\<^verbatim>\<open>BeautifulSoup(markup, 'html.parser')\<close> is a parameter of the model.\<close>

type_synonym parser = "string \<Rightarrow> soup"

section \<open>The network\<close>

text \<open>
  The remote site is a script: the outcomes of the HTTP calls still to come, in
  the order they will be made. A call that finds the script empty fails like a
  connection error. Every call is recorded in a trace, together with a mark for
  every entry into \<^verbatim>\<open>initialize_session\<close>.
\<close>

datatype exn = RequestException | OtherException

record response =
  resp_status_code :: nat
  resp_url :: string
  resp_text :: string

datatype http_result = Raises exn | Returns response

datatype event = HttpGet string | HttpPost string | InitializeSession

section \<open>The monitor object\<close>

record monitor =
  imat_url :: string
  slot_booking_url :: "string option"
  is_logged_in :: bool
  country_selected :: bool
  session_initialized :: bool
  previous_state :: "string dict"
  cities :: "string list"
  request_counter :: nat
  username :: "string option"
  password :: "string option"
  net_pending :: "http_result list"
  trace :: "event list"

section \<open>Status extraction\<close>

text \<open>The inner loop over \<^verbatim>\<open>class_list\<close>.\<close>

fun class_status :: "string list \<Rightarrow> string option" where
  "class_status [] = None"
| "class_status (class_name # rest) =
     (let class_lower = lower class_name in
      if contains class_lower ''red'' \<or> contains class_lower ''green''
           \<or> contains class_lower ''yellow''
      then (if contains class_lower ''red'' then Some ''red''
            else if contains class_lower ''green'' then Some ''green''
            else if contains class_lower ''yellow'' then Some ''yellow''
            else class_status rest)
      else class_status rest)"

text \<open>The check of the \<^verbatim>\<open>style\<close> attribute; \<open>None\<close> falls through to the next check.\<close>

definition style_status :: "string \<Rightarrow> string option" where
  "style_status style =
     (if style \<noteq> [] then
        (if contains (lower style) ''red'' \<or> contains (lower style) ''#ff0000''
              \<or> contains (lower style) ''rgb(255,0,0)'' then Some ''red''
         else if contains (lower style) ''green'' \<or> contains (lower style) ''#00ff00''
              \<or> contains (lower style) ''rgb(0,255,0)'' then Some ''green''
         else if contains (lower style) ''yellow'' \<or> contains (lower style) ''#ffff00''
              \<or> contains (lower style) ''rgb(255,255,0)'' then Some ''yellow''
         else None)
      else None)"

text \<open>The loop over \<^verbatim>\<open>element.attrs.items()\<close>.\<close>

fun attr_status :: "string dict \<Rightarrow> string option" where
  "attr_status [] = None"
| "attr_status ((attr_name, attr_value) # rest) =
     (if contains (lower attr_name) ''status'' \<or> contains (lower attr_name) ''color''
      then (if contains (lower attr_value) ''red'' \<or> contains (lower attr_value) ''green''
                \<or> contains (lower attr_value) ''yellow''
            then Some (lower attr_value)
            else attr_status rest)
      else attr_status rest)"

definition extract_status_from_element :: "element \<Rightarrow> string option" where
  "extract_status_from_element el =
     (case class_status (case el_class el of None \<Rightarrow> [] | Some cl \<Rightarrow> cl) of
        Some st \<Rightarrow> Some st
      | None \<Rightarrow>
          (case style_status (dict_get (el_attrs el) ''style'' []) of
             Some st \<Rightarrow> Some st
           | None \<Rightarrow> attr_status (el_attrs el)))"

text \<open>
  The loop over the tags one selector returned: the first tag with a truthy
  status ends the search.
\<close>

fun first_status :: "element list \<Rightarrow> string option" where
  "first_status [] = None"
| "first_status (el # els) =
     (case extract_status_from_element el of
        Some st \<Rightarrow> (if st \<noteq> [] then Some st else first_status els)
      | None \<Rightarrow> first_status els)"

definition quote :: string where
  "quote = [CHR 0x27]"

definition city_patterns :: "string \<Rightarrow> string list" where
  "city_patterns city =
     [''*[class*='' @ quote @ city @ quote @ '']'',
      ''*[id*='' @ quote @ city @ quote @ '']'',
      ''*:contains('' @ quote @ title city @ quote @ '')'',
      ''*:contains('' @ quote @ upper city @ quote @ '')'']"

text \<open>
  The loop over the selectors. A selector that raises is skipped
  (\<^verbatim>\<open>except: continue\<close>).
\<close>

fun scan_patterns :: "soup \<Rightarrow> string list \<Rightarrow> string option" where
  "scan_patterns sp [] = None"
| "scan_patterns sp (pattern # rest) =
     (case sp_select sp pattern of
        None \<Rightarrow> scan_patterns sp rest
      | Some elements \<Rightarrow>
          (case first_status elements of
             Some st \<Rightarrow> Some st
           | None \<Rightarrow> scan_patterns sp rest))"

definition status_keywords :: "string dict" where
  "status_keywords =
     [(''available'', ''green''), (''limited'', ''yellow''),
      (''full'', ''red''), (''closed'', ''red'')]"

fun keyword_scan :: "string dict \<Rightarrow> string \<Rightarrow> string option" where
  "keyword_scan [] text_content = None"
| "keyword_scan ((keyword, color) # rest) text_content =
     (if contains text_content keyword then Some color else keyword_scan rest text_content)"

definition detect_city_status :: "soup \<Rightarrow> string \<Rightarrow> string" where
  "detect_city_status sp city =
     (case scan_patterns sp (city_patterns city) of
        Some st \<Rightarrow> st
      | None \<Rightarrow>
          (let text_content = lower (sp_text sp) in
           if contains text_content city
           then (case keyword_scan status_keywords text_content of
                   Some color \<Rightarrow> color
                 | None \<Rightarrow> ''unknown'')
           else ''unknown''))"

text \<open>The loop over \<^verbatim>\<open>self.cities\<close>, filling \<^verbatim>\<open>slot_status\<close>.\<close>

fun analyze_loop :: "soup \<Rightarrow> string list \<Rightarrow> string dict \<Rightarrow> string dict" where
  "analyze_loop sp [] slot_status = slot_status"
| "analyze_loop sp (city # rest) slot_status =
     analyze_loop sp rest (AList.update city (detect_city_status sp city) slot_status)"

definition analyze_slot_status :: "parser \<Rightarrow> monitor \<Rightarrow> string \<Rightarrow> string dict" where
  "analyze_slot_status bs self html_content =
     (if html_content = [] then []
      else analyze_loop (bs html_content) (cities self) [])"

section \<open>Change detection\<close>

record change =
  change_city :: string
  change_previous :: string
  change_current :: string

text \<open>The loop over \<^verbatim>\<open>current_status.items()\<close>.\<close>

fun changes_loop :: "string dict \<Rightarrow> string dict \<Rightarrow> change list" where
  "changes_loop prev [] = []"
| "changes_loop prev ((city, current_color) # rest) =
     (let previous_color = dict_get prev city ''unknown'' in
      if previous_color = ''red'' \<and> (current_color = ''yellow'' \<or> current_color = ''green'')
      then \<lparr>change_city = city, change_previous = previous_color,
             change_current = current_color\<rparr> # changes_loop prev rest
      else changes_loop prev rest)"

definition check_for_changes :: "monitor \<Rightarrow> string dict \<Rightarrow> change list" where
  "check_for_changes self current_status = changes_loop (previous_state self) current_status"

section \<open>Polling interval\<close>

text \<open>The choice of \<^verbatim>\<open>wait_time\<close> from \<^verbatim>\<open>datetime.now().hour\<close> in \<^verbatim>\<open>run_monitor\<close>.\<close>

definition wait_time :: "nat \<Rightarrow> nat" where
  "wait_time current_hour = (if 9 \<le> current_hour \<and> current_hour \<le> 18 then 180 else 300)"

section \<open>Session management\<close>

text \<open>
  One HTTP call of \<^verbatim>\<open>self.session\<close>: the next outcome of the script is consumed and
  the call is recorded. Request headers and form data decide nothing in the
  program and are left out.
\<close>

definition session_call :: "event \<Rightarrow> monitor \<Rightarrow> http_result \<times> monitor" where
  "session_call ev self =
     (case net_pending self of
        [] \<Rightarrow> (Raises RequestException, self\<lparr>trace := trace self @ [ev]\<rparr>)
      | r # rs \<Rightarrow> (r, self\<lparr>net_pending := rs, trace := trace self @ [ev]\<rparr>))"

definition session_get :: "string \<Rightarrow> monitor \<Rightarrow> http_result \<times> monitor" where
  "session_get u self = session_call (HttpGet u) self"

definition session_post :: "string \<Rightarrow> monitor \<Rightarrow> http_result \<times> monitor" where
  "session_post u self = session_call (HttpPost u) self"

text \<open>\<^verbatim>\<open>response.raise_for_status()\<close> raises for the status codes 400 to 599.\<close>

definition raises_for_status :: "response \<Rightarrow> bool" where
  "raises_for_status r = (400 \<le> resp_status_code r \<and> resp_status_code r < 600)"

text \<open>Truthiness of an optional string: neither \<^verbatim>\<open>None\<close> nor empty.\<close>

definition truthy :: "string option \<Rightarrow> bool" where
  "truthy v = (case v of None \<Rightarrow> False | Some s \<Rightarrow> s \<noteq> [])"

text \<open>\<^verbatim>\<open>self.slot_booking_url or self.imat_url\<close>.\<close>

definition target_url :: "monitor \<Rightarrow> string" where
  "target_url self =
     (case slot_booking_url self of
        None \<Rightarrow> imat_url self
      | Some u \<Rightarrow> (if u \<noteq> [] then u else imat_url self))"

text \<open>\<^verbatim>\<open>'/'.join(self.imat_url.split('/')[:3])\<close>.\<close>

definition base_url :: "monitor \<Rightarrow> string" where
  "base_url self = join ''/'' (take 3 (split (imat_url self) (CHR ''/'')))"

text \<open>A relative address is put behind the base URL.\<close>

definition absolute :: "monitor \<Rightarrow> string \<Rightarrow> string" where
  "absolute self href = (if \<not> startswith href ''http'' then base_url self @ href else href)"

definition login_to_system :: "parser \<Rightarrow> monitor \<Rightarrow> bool \<times> monitor" where
  "login_to_system bs self =
     (if \<not> truthy (username self) \<or> \<not> truthy (password self) then (True, self)
      else
        (case session_get (imat_url self) self of
           (Raises e, s1) \<Rightarrow> (False, s1)
         | (Returns response, s1) \<Rightarrow>
             (case sp_login_form (bs (resp_text response)) of
                None \<Rightarrow> (True, s1)
              | Some login_form \<Rightarrow>
                  (let action = absolute s1 (dict_get (form_attrs login_form) ''action'' []) in
                   case session_post action s1 of
                     (Raises e, s2) \<Rightarrow> (False, s2)
                   | (Returns login_response, s2) \<Rightarrow>
                       (if resp_status_code login_response = 200
                        then (if contains (lower (resp_url login_response)) ''dashboard''
                                   \<or> contains (lower (resp_text login_response)) ''welcome''
                              then (True, s2\<lparr>is_logged_in := True\<rparr>)
                              else (False, s2))
                        else (True, s2))))))"

text \<open>
  The two methods of \<^verbatim>\<open>select_country\<close>. Each yields \<open>Inl e\<close> when a call raised,
  \<open>Inr True\<close> when it returned from the function, and \<open>Inr False\<close> when control
  falls through to what follows.
\<close>

definition country_dropdown :: "soup \<Rightarrow> monitor \<Rightarrow> (exn + bool) \<times> monitor" where
  "country_dropdown sp self =
     (case sp_country_select sp of
        None \<Rightarrow> (Inr False, self)
      | Some country_select \<Rightarrow>
          (case cc_parent_form country_select of
             None \<Rightarrow> (Inr False, self)
           | Some frm \<Rightarrow>
               (let action = absolute self (dict_get (form_attrs frm) ''action'' []) in
                if cc_has_india_option country_select
                then (case session_post action self of
                        (Raises e, s1) \<Rightarrow> (Inl e, s1)
                      | (Returns country_response, s1) \<Rightarrow>
                          (if resp_status_code country_response = 200
                           then (Inr True, s1\<lparr>country_selected := True\<rparr>)
                           else (Inr False, s1)))
                else (Inr False, self))))"

fun india_links_loop :: "string option list \<Rightarrow> monitor \<Rightarrow> (exn + bool) \<times> monitor" where
  "india_links_loop [] self = (Inr False, self)"
| "india_links_loop (link # rest) self =
     (if truthy link
      then (case session_get (absolute self (the link)) self of
              (Raises e, s1) \<Rightarrow> (Inl e, s1)
            | (Returns country_response, s1) \<Rightarrow>
                (if resp_status_code country_response = 200
                 then (Inr True, s1\<lparr>country_selected := True\<rparr>)
                 else india_links_loop rest s1))
      else india_links_loop rest self)"

definition select_country :: "parser \<Rightarrow> monitor \<Rightarrow> bool \<times> monitor" where
  "select_country bs self =
     (case session_get (imat_url self) self of
        (Raises e, s1) \<Rightarrow> (True, s1)
      | (Returns response, s1) \<Rightarrow>
          (let sp = bs (resp_text response) in
           case country_dropdown sp s1 of
             (Inl e, s2) \<Rightarrow> (True, s2)
           | (Inr True, s2) \<Rightarrow> (True, s2)
           | (Inr False, s2) \<Rightarrow>
               (case india_links_loop (sp_india_links sp) s2 of
                  (r, s3) \<Rightarrow> (True, s3))))"

definition slot_keywords :: "string list" where
  "slot_keywords = [''slot'', ''booking'', ''appointment'', ''schedule'', ''exam center'']"

text \<open>
  The loops of \<^verbatim>\<open>navigate_to_slot_page\<close>: \<open>Inr (Some href)\<close> is the address the
  function returns from inside the loop, \<open>Inr None\<close> lets the search go on.
\<close>

fun slot_links_loop :: "string list \<Rightarrow> monitor \<Rightarrow> (exn + string option) \<times> monitor" where
  "slot_links_loop [] self = (Inr None, self)"
| "slot_links_loop (href # rest) self =
     (if href \<noteq> []
      then (case session_get (absolute self href) self of
              (Raises e, s1) \<Rightarrow> (Inl e, s1)
            | (Returns slot_response, s1) \<Rightarrow>
                (if resp_status_code slot_response = 200
                 then (Inr (Some (absolute self href)),
                       s1\<lparr>slot_booking_url := Some (absolute self href)\<rparr>)
                 else slot_links_loop rest s1))
      else slot_links_loop rest self)"

fun slot_keywords_loop ::
  "soup \<Rightarrow> string list \<Rightarrow> monitor \<Rightarrow> (exn + string option) \<times> monitor" where
  "slot_keywords_loop sp [] self = (Inr None, self)"
| "slot_keywords_loop sp (keyword # rest) self =
     (let links = (if sp_links_by_text sp keyword = [] then sp_links_by_href sp keyword
                   else sp_links_by_text sp keyword) in
      case slot_links_loop links self of
        (Inl e, s1) \<Rightarrow> (Inl e, s1)
      | (Inr (Some href), s1) \<Rightarrow> (Inr (Some href), s1)
      | (Inr None, s1) \<Rightarrow> slot_keywords_loop sp rest s1)"

definition navigate_to_slot_page :: "parser \<Rightarrow> monitor \<Rightarrow> string \<times> monitor" where
  "navigate_to_slot_page bs self =
     (case session_get (imat_url self) self of
        (Raises e, s1) \<Rightarrow> (imat_url s1, s1)
      | (Returns response, s1) \<Rightarrow>
          (case slot_keywords_loop (bs (resp_text response)) slot_keywords s1 of
             (Inl e, s2) \<Rightarrow> (imat_url s2, s2)
           | (Inr (Some href), s2) \<Rightarrow> (href, s2)
           | (Inr None, s2) \<Rightarrow> (imat_url s2, s2)))"

text \<open>
  The three callees catch every exception themselves, so the handler of
  \<^verbatim>\<open>initialize_session\<close> is never entered.
\<close>

definition initialize_session :: "parser \<Rightarrow> monitor \<Rightarrow> bool \<times> monitor" where
  "initialize_session bs self =
     (case login_to_system bs (self\<lparr>trace := trace self @ [InitializeSession]\<rparr>) of
        (logged, s1) \<Rightarrow>
          (if \<not> logged then (False, s1)
           else
             (case select_country bs s1 of
                (selected, s2) \<Rightarrow>
                  (if \<not> selected then (False, s2)
                   else
                     (case navigate_to_slot_page bs s2 of
                        (href, s3) \<Rightarrow>
                          (True, s3\<lparr>slot_booking_url := Some href,
                                    session_initialized := True\<rparr>))))))"

text \<open>The test for a redirect to a login or country page.\<close>

definition expired :: "response \<Rightarrow> bool" where
  "expired response =
     (contains (lower (resp_url response)) ''login''
      \<or> contains (lower (resp_url response)) ''signin''
      \<or> contains (lower (resp_url response)) ''country'')"

definition maintain_session :: "parser \<Rightarrow> monitor \<Rightarrow> bool \<times> monitor" where
  "maintain_session bs self =
     (case session_get (target_url self) self of
        (Raises e, s1) \<Rightarrow> (False, s1)
      | (Returns response, s1) \<Rightarrow>
          (if expired response then initialize_session bs s1 else (True, s1)))"

text \<open>
  \<^verbatim>\<open>session.get(target_url, ...)\<close> followed by \<^verbatim>\<open>raise_for_status()\<close>, as
  \<^verbatim>\<open>get_page_content\<close> does three times.
\<close>

definition get_checked :: "monitor \<Rightarrow> (exn + response) \<times> monitor" where
  "get_checked self =
     (case session_get (target_url self) self of
        (Raises e, s1) \<Rightarrow> (Inl e, s1)
      | (Returns response, s1) \<Rightarrow>
          (if raises_for_status response then (Inl RequestException, s1)
           else (Inr response, s1)))"

text \<open>
  The head of the \<^verbatim>\<open>try\<close> of \<^verbatim>\<open>get_page_content\<close>: initialisation on the first
  run, and the check of the session on every fifth request. \<open>False\<close> stands for
  the two early \<^verbatim>\<open>return None\<close>.
\<close>

definition ensure_session :: "parser \<Rightarrow> monitor \<Rightarrow> bool \<times> monitor" where
  "ensure_session bs self =
     (case (if \<not> session_initialized self then initialize_session bs self else (True, self)) of
        (ok1, s1) \<Rightarrow>
          (if \<not> ok1 then (False, s1)
           else (if request_counter s1 mod 5 = 0 then maintain_session bs s1 else (True, s1))))"

text \<open>
  The body of the \<^verbatim>\<open>try\<close> of \<^verbatim>\<open>get_page_content\<close>, after the counter was raised:
  \<open>Inl e\<close> is an exception that reaches the handlers, \<open>Inr r\<close> a returned value.
\<close>

definition get_page_content_try :: "parser \<Rightarrow> monitor \<Rightarrow> (exn + string option) \<times> monitor" where
  "get_page_content_try bs self =
     (case ensure_session bs self of
        (ok, s2) \<Rightarrow>
          (if \<not> ok then (Inr None, s2)
           else
             (case get_checked s2 of
                (Inl e, s3) \<Rightarrow> (Inl e, s3)
              | (Inr response, s3) \<Rightarrow>
                  (if expired response
                   then (case initialize_session bs s3 of
                           (ok3, s4) \<Rightarrow>
                             (if ok3
                              then (case get_checked s4 of
                                      (Inl e, s5) \<Rightarrow> (Inl e, s5)
                                    | (Inr response2, s5) \<Rightarrow>
                                        (Inr (Some (resp_text response2)), s5))
                              else (Inr None, s4)))
                   else (Inr (Some (resp_text response)), s3)))))"

text \<open>
  The handler for \<^verbatim>\<open>RequestException\<close>: one recovery (the pause of three seconds
  changes nothing in the state).
\<close>

definition recover :: "parser \<Rightarrow> monitor \<Rightarrow> string option \<times> monitor" where
  "recover bs self =
     (case initialize_session bs self of
        (ok, s1) \<Rightarrow>
          (if ok
           then (case get_checked s1 of
                   (Inl e, s2) \<Rightarrow> (None, s2)
                 | (Inr response, s2) \<Rightarrow> (Some (resp_text response), s2))
           else (None, s1)))"

definition get_page_content :: "parser \<Rightarrow> monitor \<Rightarrow> string option \<times> monitor" where
  "get_page_content bs self =
     (case get_page_content_try bs (self\<lparr>request_counter := request_counter self + 1\<rparr>) of
        (Inr result, s1) \<Rightarrow> (result, s1)
      | (Inl RequestException, s1) \<Rightarrow> recover bs s1
      | (Inl OtherException, s1) \<Rightarrow> (None, s1))"

section \<open>The monitoring loop\<close>

text \<open>
  What \<^verbatim>\<open>send_telegram_message\<close> is called with: the message is kept as the data
  it is formatted from.
\<close>

datatype notification =
    Startup
  | SlotAlert "change list"
  | FailureAlert nat nat

text \<open>
  The local variables of \<^verbatim>\<open>run_monitor\<close>, the messages handed to the notifier and the
  arguments of \<^verbatim>\<open>time.sleep\<close>, in order.
\<close>

record loop =
  mon :: monitor
  consecutive_failures :: nat
  last_successful_check :: nat
  sent :: "notification list"
  sleeps :: "nat list"

text \<open>
  The two readings of the clock in one iteration: the time at its start and the
  hour of day before sleeping.
\<close>

record clock =
  current_time :: nat
  current_hour :: nat

text \<open>\<^verbatim>\<open>format_notification_message\<close>: no message for an empty list of changes.\<close>

definition format_notification_message :: "change list \<Rightarrow> notification option" where
  "format_notification_message changes =
     (if changes = [] then None else Some (SlotAlert changes))"

definition on_success :: "parser \<Rightarrow> clock \<Rightarrow> string \<Rightarrow> loop \<Rightarrow> loop" where
  "on_success bs clk html_content st =
     (let current_status = analyze_slot_status bs (mon st) html_content;
          changes = check_for_changes (mon st) current_status;
          notes = (if changes \<noteq> []
                   then (case format_notification_message changes of
                           Some notification_message \<Rightarrow> [notification_message]
                         | None \<Rightarrow> [])
                   else [])
      in st\<lparr>mon := (mon st)\<lparr>previous_state := current_status\<rparr>,
            consecutive_failures := 0,
            last_successful_check := current_time clk,
            sent := sent st @ notes\<rparr>)"

definition on_failure :: "loop \<Rightarrow> loop" where
  "on_failure st =
     (if consecutive_failures st + 1 \<ge> 3
      then st\<lparr>consecutive_failures := 0,
              sent := sent st @ [FailureAlert (consecutive_failures st + 1)
                                    (last_successful_check st)]\<rparr>
      else st\<lparr>consecutive_failures := consecutive_failures st + 1\<rparr>)"

text \<open>
  One iteration of the \<^verbatim>\<open>while True\<close> loop. Nothing in the body can raise in this
  model (every callee catches its exceptions), so the two handlers of the loop
  are not entered.
\<close>

definition run_monitor_cycle :: "parser \<Rightarrow> clock \<Rightarrow> loop \<Rightarrow> loop" where
  "run_monitor_cycle bs clk st =
     (case get_page_content bs (mon st) of
        (html_content, m1) \<Rightarrow>
          (let st1 = (if truthy html_content
                      then on_success bs clk (the html_content) (st\<lparr>mon := m1\<rparr>)
                      else on_failure (st\<lparr>mon := m1\<rparr>))
           in st1\<lparr>sleeps := sleeps st1 @ [wait_time (current_hour clk)]\<rparr>))"

text \<open>
  The loop never ends by itself; \<open>run_cycles\<close> runs as many iterations as there
  are clock readings.
\<close>

fun run_cycles :: "parser \<Rightarrow> clock list \<Rightarrow> loop \<Rightarrow> loop" where
  "run_cycles bs [] st = st"
| "run_cycles bs (clk # clks) st = run_cycles bs clks (run_monitor_cycle bs clk st)"

definition run_monitor :: "parser \<Rightarrow> nat \<Rightarrow> clock list \<Rightarrow> monitor \<Rightarrow> loop" where
  "run_monitor bs started clks self =
     run_cycles bs clks
       \<lparr>mon = self, consecutive_failures = 0, last_successful_check = started,
        sent = [Startup], sleeps = []\<rparr>"

section \<open>Notions used in the statements\<close>

text \<open>
  \<open>frame s s'\<close>: going from \<open>s\<close> to \<open>s'\<close> leaves the configuration, the request
  counter and the initialisation flag alone, and adds to the trace only HTTP
  calls, no entry into \<^verbatim>\<open>initialize_session\<close>.
\<close>

definition frame :: "monitor \<Rightarrow> monitor \<Rightarrow> bool" where
  "frame s s' =
     (imat_url s' = imat_url s \<and> username s' = username s \<and> password s' = password s
      \<and> cities s' = cities s \<and> previous_state s' = previous_state s
      \<and> request_counter s' = request_counter s
      \<and> session_initialized s' = session_initialized s
      \<and> (\<exists>sub. trace s' = trace s @ sub \<and> InitializeSession \<notin> set sub))"

text \<open>The fetch of the next iteration fails: it yields nothing the loop can parse.\<close>

definition fetch_fails :: "parser \<Rightarrow> loop \<Rightarrow> bool" where
  "fetch_fails bs st = (\<not> truthy (fst (get_page_content bs (mon st))))"

text \<open>Every one of the iterations run for the given clock readings fails to fetch.\<close>

fun all_fail :: "parser \<Rightarrow> clock list \<Rightarrow> loop \<Rightarrow> bool" where
  "all_fail bs [] st = True"
| "all_fail bs (clk # clks) st =
     (fetch_fails bs st \<and> all_fail bs clks (run_monitor_cycle bs clk st))"

section \<open>Construction and example inputs\<close>

text \<open>
  \<^verbatim>\<open>__init__\<close>: the fields the model keeps, for given credentials and a given
  script of the network.
\<close>

definition new_monitor :: "string option \<Rightarrow> string option \<Rightarrow> http_result list \<Rightarrow> monitor" where
  "new_monitor user pass script =
     \<lparr>imat_url = ''https://www.nta.ac.in/IMAT'', slot_booking_url = None,
      is_logged_in = False, country_selected = False, session_initialized = False,
      previous_state = [], cities = [''chennai'', ''delhi''], request_counter = 0,
      username = user, password = pass, net_pending = script, trace = []\<rparr>"

text \<open>A page in which no query finds anything.\<close>

definition blank_page :: soup where
  "blank_page =
     \<lparr>sp_select = (\<lambda>p. Some []), sp_text = [], sp_login_form = None,
      sp_country_select = None, sp_india_links = [],
      sp_links_by_text = (\<lambda>k. []), sp_links_by_href = (\<lambda>k. [])\<rparr>"


text \<open>
  The page \<^verbatim>\<open><div class=delhi data-status=Red-Full>slots</div>\<close>: the selector for
  the class \<^verbatim>\<open>delhi\<close> finds the one tag.
\<close>

definition delhi_attr_markup :: string where
  "delhi_attr_markup = ''<div class=delhi data-status=Red-Full>slots</div>''"

definition delhi_attr_page :: soup where
  "delhi_attr_page =
     blank_page
       \<lparr>sp_select := (\<lambda>p. if p = ''*[class*='' @ quote @ ''delhi'' @ quote @ '']''
                          then Some [\<lparr>el_class = Some [''delhi''],
                                      el_attrs = [(''data-status'', ''Red-Full'')]\<rparr>]
                          else Some []),
        sp_text := ''slots''\<rparr>"

text \<open>An ordinary answer of the site: status 200, no redirect, an empty document.\<close>

definition plain_response :: response where
  "plain_response =
     \<lparr>resp_status_code = 200, resp_url = ''https://www.nta.ac.in/IMAT'',
      resp_text = ''<html></html>''\<rparr>"

text \<open>An answer that ended on the login page after redirects.\<close>

definition login_redirect :: response where
  "login_redirect =
     \<lparr>resp_status_code = 200, resp_url = ''https://www.nta.ac.in/login'',
      resp_text = ''<form id=loginForm></form>''\<rparr>"

text \<open>An answer with a server error.\<close>

definition server_error :: response where
  "server_error =
     \<lparr>resp_status_code = 500, resp_url = ''https://www.nta.ac.in/do_login'',
      resp_text = ''error''\<rparr>"

text \<open>A page that holds a login form posting to \<^verbatim>\<open>/do_login\<close>, and nothing else.\<close>

definition login_page :: soup where
  "login_page = blank_page\<lparr>sp_login_form := Some \<lparr>form_attrs = [(''action'', ''/do_login'')]\<rparr>\<rparr>"

text \<open>
  A parser for the examples: the markup of the login page is read as
  \<open>login_page\<close>, everything else as a page with nothing in it.
\<close>

definition example_parser :: parser where
  "example_parser markup =
     (if markup = ''<form id=loginForm></form>'' then login_page else blank_page)"

text \<open>
  A monitor with credentials whose login form is found and whose login request
  is answered with a server error.
\<close>

definition rejected_login_monitor :: monitor where
  "rejected_login_monitor =
     new_monitor (Some ''user'') (Some ''secret'')
       [Returns login_redirect, Returns server_error, Returns plain_response,
        Returns plain_response]"

text \<open>A monitor with credentials whose first request fails on the network.\<close>

definition offline_monitor :: monitor where
  "offline_monitor =
     new_monitor (Some ''user'') (Some ''secret'') [Raises RequestException]"

text \<open>
  A monitor with credentials: the entry page answers the login and the country
  step (no form, no control), then the network fails for the navigation step.
\<close>

definition navigation_failure_monitor :: monitor where
  "navigation_failure_monitor =
     new_monitor (Some ''user'') (Some ''secret'')
       [Returns plain_response, Returns plain_response, Raises RequestException]"

text \<open>
  A monitor without credentials: the first initialisation goes through, the
  fetch ends on the login page, the second initialisation goes through, and the
  repeated fetch ends on the login page again.
\<close>

definition redirected_monitor :: monitor where
  "redirected_monitor =
     new_monitor None None
       [Returns plain_response, Returns plain_response, Returns login_redirect,
        Returns plain_response, Returns plain_response, Returns login_redirect]"

text \<open>
  The states of \<open>redirected_monitor\<close> inside its first \<^verbatim>\<open>get_page_content\<close>: when
  the session has been made ready, and after the first fetch.
\<close>

definition redirected_ready :: monitor where
  "redirected_ready =
     snd (ensure_session example_parser
            (redirected_monitor\<lparr>request_counter := request_counter redirected_monitor + 1\<rparr>))"

definition redirected_fetched :: monitor where
  "redirected_fetched = snd (get_checked redirected_ready)"

text \<open>
  The loop at its start, for a monitor without credentials whose network is
  down for good, and the clock readings of three and of five iterations.
\<close>

definition outage_loop :: loop where
  "outage_loop = run_monitor example_parser 0 [] (new_monitor None None [])"

definition three_readings :: "clock list" where
  "three_readings =
     [\<lparr>current_time = 1, current_hour = 10\<rparr>, \<lparr>current_time = 2, current_hour = 10\<rparr>,
      \<lparr>current_time = 3, current_hour = 10\<rparr>]"

definition five_readings :: "clock list" where
  "five_readings =
     three_readings
     @ [\<lparr>current_time = 4, current_hour = 10\<rparr>, \<lparr>current_time = 5, current_hour = 10\<rparr>]"

text \<open>A loop that has counted two failures and whose network is up again.\<close>

definition recovering_loop :: loop where
  "recovering_loop =
     \<lparr>mon = new_monitor None None
              [Returns plain_response, Returns plain_response, Returns plain_response],
      consecutive_failures = 2, last_successful_check = 0, sent = [Startup], sleeps = []\<rparr>"

section \<open>Change detection: only red to yellow or green\<close>

lemma changes_loop_city:
  "(\<exists>t \<in> set (changes_loop prev cur). change_city t = c) \<longleftrightarrow>
     (\<exists>v. (c, v) \<in> set cur \<and> dict_get prev c ''unknown'' = ''red''
          \<and> (v = ''yellow'' \<or> v = ''green''))"
proof (induction cur)
  case Nil
  then show ?case by simp
next
  case (Cons p cur)
  obtain k w where p: "p = (k, w)" by (cases p)
  show ?case
    unfolding p using Cons.IH by (auto simp: Let_def)
qed

lemma changes_loop_entries:
  "t \<in> set (changes_loop prev cur) \<Longrightarrow>
     (change_city t, change_current t) \<in> set cur \<and> change_previous t = ''red''
     \<and> dict_get prev (change_city t) ''unknown'' = ''red''
     \<and> (change_current t = ''yellow'' \<or> change_current t = ''green'')"
proof (induction cur)
  case Nil
  then show ?case by simp
next
  case (Cons p cur)
  obtain k w where p: "p = (k, w)" by (cases p)
  show ?case
    using Cons unfolding p by (auto simp: Let_def split: if_splits)
qed

lemma distinct_keys_value:
  assumes "distinct (map fst d)" and "(k, v) \<in> set d" and "(k, w) \<in> set d"
  shows "v = w"
proof -
  have "map_of d k = Some v" using assms(1,2) by (rule map_of_is_SomeI)
  moreover have "map_of d k = Some w" using assms(1,3) by (rule map_of_is_SomeI)
  ultimately show ?thesis by simp
qed

lemma dict_get_member:
  "distinct (map fst d) \<Longrightarrow> (k, v) \<in> set d \<Longrightarrow> dict_get d k dflt = v"
  by (simp add: dict_get_def)

lemma changes_loop_self:
  assumes "distinct (map fst d)"
  shows "changes_loop d d = []"
proof (rule ccontr)
  assume "changes_loop d d \<noteq> []"
  then obtain t where t: "t \<in> set (changes_loop d d)"
    by (cases "changes_loop d d") auto
  from changes_loop_entries [OF t]
  have m: "(change_city t, change_current t) \<in> set d"
    and r: "dict_get d (change_city t) ''unknown'' = ''red''"
    and o: "change_current t = ''yellow'' \<or> change_current t = ''green''"
    by simp_all
  from dict_get_member [OF assms m] r have "change_current t = ''red''"
    by simp
  with o show False by simp
qed

text \<open>
  Claim C1. Let \<open>current_status\<close> be a snapshot (a dictionary, so its keys are
  distinct) in which category \<open>c\<close> has the value \<open>v\<close>. Then
  \<^verbatim>\<open>check_for_changes\<close> reports a change for \<open>c\<close> if and only if the previous snapshot
  holds \<^verbatim>\<open>red\<close> for \<open>c\<close> (a missing entry counts as \<^verbatim>\<open>unknown\<close>) and \<open>v\<close> is
  \<^verbatim>\<open>yellow\<close> or \<^verbatim>\<open>green\<close>; a reported change carries exactly these two values; a
  category never seen before is not reported; and comparing a snapshot with
  itself reports nothing. The statement holds for all strings as values, hence
  for every combination of red, yellow, green and unknown.
\<close>

theorem check_for_changes_red_to_open:
  assumes "distinct (map fst current_status)" and "(c, v) \<in> set current_status"
  shows "((\<exists>t \<in> set (check_for_changes self current_status). change_city t = c) \<longleftrightarrow>
            (dict_get (previous_state self) c ''unknown'' = ''red''
             \<and> (v = ''yellow'' \<or> v = ''green'')))
         \<and> (\<forall>t \<in> set (check_for_changes self current_status).
               change_city t = c \<longrightarrow> change_previous t = ''red'' \<and> change_current t = v)
         \<and> (map_of (previous_state self) c = None \<longrightarrow>
               \<not> (\<exists>t \<in> set (check_for_changes self current_status). change_city t = c))
         \<and> check_for_changes (self\<lparr>previous_state := current_status\<rparr>) current_status = []"
proof -
  have only: "w = v" if "(c, w) \<in> set current_status" for w
    using distinct_keys_value [OF assms(1) that assms(2)] .
  have a: "(\<exists>t \<in> set (check_for_changes self current_status). change_city t = c) \<longleftrightarrow>
            (dict_get (previous_state self) c ''unknown'' = ''red''
             \<and> (v = ''yellow'' \<or> v = ''green''))"
    unfolding check_for_changes_def changes_loop_city
    using assms(2) only by blast
  have b: "change_previous t = ''red'' \<and> change_current t = v"
    if "t \<in> set (check_for_changes self current_status)" and "change_city t = c" for t
  proof -
    from that(1) have "t \<in> set (changes_loop (previous_state self) current_status)"
      by (simp add: check_for_changes_def)
    from changes_loop_entries [OF this] that(2)
    have "(c, change_current t) \<in> set current_status" and "change_previous t = ''red''"
      by simp_all
    with only show ?thesis by simp
  qed
  have c: "map_of (previous_state self) c = None \<longrightarrow>
               \<not> (\<exists>t \<in> set (check_for_changes self current_status). change_city t = c)"
    unfolding a by (simp add: dict_get_def)
  have d: "check_for_changes (self\<lparr>previous_state := current_status\<rparr>) current_status = []"
    unfolding check_for_changes_def using assms(1) by (simp add: changes_loop_self)
  from a b c d show ?thesis by blast
qed

text \<open>
  The theorem at a concrete pair of snapshots: chennai goes from red to green
  and is reported; the new snapshot compared with itself reports nothing.
\<close>

theorem check_for_changes_red_to_open_witness:
  "distinct (map fst [(''chennai'', ''green''), (''delhi'', ''red'')])
   \<and> (''chennai'', ''green'') \<in> set [(''chennai'', ''green''), (''delhi'', ''red'')]
   \<and> (\<exists>t \<in> set (check_for_changes
          ((new_monitor None None [])\<lparr>previous_state := [(''chennai'', ''red''), (''delhi'', ''green'')]\<rparr>)
          [(''chennai'', ''green''), (''delhi'', ''red'')]). change_city t = ''chennai'')
   \<and> check_for_changes
          ((new_monitor None None [])\<lparr>previous_state := [(''chennai'', ''green''), (''delhi'', ''red'')]\<rparr>)
          [(''chennai'', ''green''), (''delhi'', ''red'')] = []"
proof -
  let ?cur = "[(''chennai'', ''green''), (''delhi'', ''red'')]"
  let ?m = "(new_monitor None None [])\<lparr>previous_state := [(''chennai'', ''red''), (''delhi'', ''green'')]\<rparr>"
  have h1: "distinct (map fst ?cur)" by simp
  have h2: "(''chennai'', ''green'') \<in> set ?cur" by simp
  note T = check_for_changes_red_to_open [OF h1 h2, of ?m]
  have r: "dict_get (previous_state ?m) ''chennai'' ''unknown'' = ''red''"
    by (simp add: dict_get_def)
  from T r have e: "\<exists>t \<in> set (check_for_changes ?m ?cur). change_city t = ''chennai''"
    by simp
  have s: "check_for_changes (?m\<lparr>previous_state := ?cur\<rparr>) ?cur = []"
    using T by blast
  have s': "?m\<lparr>previous_state := ?cur\<rparr> = (new_monitor None None [])\<lparr>previous_state := ?cur\<rparr>"
    by simp
  show ?thesis
    using h1 h2 e s unfolding s' by (intro conjI)
qed

section \<open>The polling interval\<close>

lemma sleeps_on_success: "sleeps (on_success bs clk h st) = sleeps st"
  by (simp add: on_success_def Let_def)

lemma sleeps_on_failure: "sleeps (on_failure st) = sleeps st"
  by (simp add: on_failure_def)

lemma sleeps_cycle:
  "sleeps (run_monitor_cycle bs clk st) = sleeps st @ [wait_time (current_hour clk)]"
proof -
  obtain h m1 where g: "get_page_content bs (mon st) = (h, m1)"
    by (cases "get_page_content bs (mon st)")
  show ?thesis
    unfolding run_monitor_cycle_def g
    by (simp add: Let_def sleeps_on_success sleeps_on_failure)
qed

text \<open>
  Claim C8. For every hour of day the interval chosen by the loop is 180 seconds
  when the hour lies between 9 and 18, both included, and 300 seconds otherwise;
  so hours 10, 9 and 18 give 180 and hour 22 gives 300. Every iteration of the
  loop sleeps once, for the interval of the hour it read.
\<close>

theorem wait_time_business_hours:
  "wait_time h = (if 9 \<le> h \<and> h \<le> 18 then 180 else 300)
   \<and> wait_time 10 = 180 \<and> wait_time 22 = 300 \<and> wait_time 9 = 180 \<and> wait_time 18 = 180
   \<and> sleeps (run_monitor_cycle bs clk st) = sleeps st @ [wait_time (current_hour clk)]"
  by (simp add: wait_time_def sleeps_cycle)

text \<open>The hours on both sides of the two boundaries.\<close>

theorem wait_time_business_hours_witness:
  "wait_time 8 = 300 \<and> wait_time 9 = 180 \<and> wait_time 18 = 180 \<and> wait_time 19 = 300"
  using wait_time_business_hours [of 8] wait_time_business_hours [of 9]
    wait_time_business_hours [of 18] wait_time_business_hours [of 19]
  by simp

section \<open>Status extraction\<close>

text \<open>
  No structural match: every selector either raises or returns only tags from
  which no status can be read.
\<close>

lemma first_status_none:
  "first_status els = None \<longleftrightarrow>
     (\<forall>el \<in> set els. extract_status_from_element el = None
                      \<or> extract_status_from_element el = Some [])"
  by (induction els) (auto split: option.splits)

lemma scan_patterns_none:
  "scan_patterns sp ps = None \<longleftrightarrow>
     (\<forall>p \<in> set ps. sp_select sp p = None
                     \<or> (\<exists>els. sp_select sp p = Some els \<and> first_status els = None))"
  by (induction ps) (auto split: option.splits)








text \<open>
  Claim C5. The snapshot should only hold red, yellow, green or unknown. The
  rule for attributes named like \<^verbatim>\<open>status\<close> or \<^verbatim>\<open>color\<close> tests that the value
  contains a colour word and then returns the whole lower-cased value, where the
  rule for class names returns the colour word. For the tag
  \<^verbatim>\<open><div class=delhi data-status=Red-Full>\<close> the value stored for delhi is
  \<^verbatim>\<open>red-full\<close>, which is none of the four.
\<close>

theorem attribute_rule_keeps_raw_value:
  "extract_status_from_element
     \<lparr>el_class = Some [''delhi''], el_attrs = [(''data-status'', ''Red-Full'')]\<rparr>
     = Some ''red-full''
   \<and> analyze_slot_status (\<lambda>markup. delhi_attr_page) (new_monitor None None []) delhi_attr_markup
     = [(''chennai'', ''unknown''), (''delhi'', ''red-full'')]"
  by code_simp

section \<open>Snapshots\<close>











section \<open>Session management: what each step leaves alone\<close>

lemma frame_refl: "frame s s"
  by (simp add: frame_def)

lemma frame_trans:
  assumes "frame s s'" and "frame s' s''"
  shows "frame s s''"
proof -
  from assms(1) obtain a where a: "trace s' = trace s @ a" "InitializeSession \<notin> set a"
    by (auto simp: frame_def)
  from assms(2) obtain b where b: "trace s'' = trace s' @ b" "InitializeSession \<notin> set b"
    by (auto simp: frame_def)
  have "trace s'' = trace s @ (a @ b) \<and> InitializeSession \<notin> set (a @ b)"
    using a b by simp
  then have "\<exists>sub. trace s'' = trace s @ sub \<and> InitializeSession \<notin> set sub"
    by blast
  with assms show ?thesis
    by (simp add: frame_def)
qed

lemma frame_is_logged_in: "frame s s' \<Longrightarrow> frame s (s'\<lparr>is_logged_in := b\<rparr>)"
  by (simp add: frame_def)

lemma frame_country_selected: "frame s s' \<Longrightarrow> frame s (s'\<lparr>country_selected := b\<rparr>)"
  by (simp add: frame_def)

lemma frame_slot_booking_url: "frame s s' \<Longrightarrow> frame s (s'\<lparr>slot_booking_url := u\<rparr>)"
  by (simp add: frame_def)

lemma frame_call:
  "ev \<noteq> InitializeSession \<Longrightarrow> session_call ev s = (r, s') \<Longrightarrow> frame s s'"
  by (auto simp: session_call_def frame_def split: list.splits)

lemma frame_get: "session_get u s = (r, s') \<Longrightarrow> frame s s'"
  unfolding session_get_def by (rule frame_call) simp_all

lemma frame_post: "session_post u s = (r, s') \<Longrightarrow> frame s s'"
  unfolding session_post_def by (rule frame_call) simp_all

lemma frame_login: "frame s (snd (login_to_system bs s))"
proof (cases "\<not> truthy (username s) \<or> \<not> truthy (password s)")
  case True
  then show ?thesis by (simp add: login_to_system_def frame_refl)
next
  case False
  obtain r s1 where g: "session_get (imat_url s) s = (r, s1)"
    by (cases "session_get (imat_url s) s")
  note f1 = frame_get [OF g]
  show ?thesis
  proof (cases r)
    case (Raises e)
    with False g f1 show ?thesis by (simp add: login_to_system_def)
  next
    case (Returns response)
    show ?thesis
    proof (cases "sp_login_form (bs (resp_text response))")
      case None
      with False g f1 Returns show ?thesis by (simp add: login_to_system_def)
    next
      case (Some login_form)
      obtain r2 s2 where p:
        "session_post (absolute s1 (dict_get (form_attrs login_form) ''action'' [])) s1 = (r2, s2)"
        by (cases "session_post (absolute s1 (dict_get (form_attrs login_form) ''action'' [])) s1")
      from frame_trans [OF f1 frame_post [OF p]] have f2: "frame s s2" .
      show ?thesis
        using False g Returns Some p f2
        by (cases r2) (simp_all add: login_to_system_def Let_def frame_is_logged_in)
    qed
  qed
qed

lemma frame_dropdown: "frame s (snd (country_dropdown sp s))"
proof (cases "sp_country_select sp")
  case None
  then show ?thesis by (simp add: country_dropdown_def frame_refl)
next
  case (Some cs)
  show ?thesis
  proof (cases "cc_parent_form cs")
    case None
    with Some show ?thesis by (simp add: country_dropdown_def frame_refl)
  next
    case (Some frm)
    obtain r s1 where p:
      "session_post (absolute s (dict_get (form_attrs frm) ''action'' [])) s = (r, s1)"
      by (cases "session_post (absolute s (dict_get (form_attrs frm) ''action'' [])) s")
    note f = frame_post [OF p]
    show ?thesis
      using \<open>sp_country_select sp = Some cs\<close> Some p f
      by (cases r) (simp_all add: country_dropdown_def Let_def frame_refl frame_country_selected)
  qed
qed

lemma frame_india_links: "frame s (snd (india_links_loop links s))"
proof (induction links arbitrary: s)
  case Nil
  then show ?case by (simp add: frame_refl)
next
  case (Cons link rest)
  show ?case
  proof (cases "truthy link")
    case False
    with Cons show ?thesis by simp
  next
    case True
    obtain r s1 where g: "session_get (absolute s (the link)) s = (r, s1)"
      by (cases "session_get (absolute s (the link)) s")
    note f = frame_get [OF g]
    show ?thesis
    proof (cases r)
      case (Raises e)
      with True g f show ?thesis by simp
    next
      case (Returns resp)
      show ?thesis
      proof (cases "resp_status_code resp = 200")
        case True
        with \<open>truthy link\<close> g f Returns show ?thesis by (simp add: frame_country_selected)
      next
        case False
        from frame_trans [OF f Cons.IH [of s1]]
        show ?thesis using \<open>truthy link\<close> g Returns False by simp
      qed
    qed
  qed
qed

lemma select_country_succeeds: "fst (select_country bs s) = True"
  by (simp add: select_country_def Let_def
      split: prod.splits http_result.splits sum.splits bool.splits)

lemma frame_select_country: "frame s (snd (select_country bs s))"
proof -
  obtain r s1 where g: "session_get (imat_url s) s = (r, s1)"
    by (cases "session_get (imat_url s) s")
  note f1 = frame_get [OF g]
  show ?thesis
  proof (cases r)
    case (Raises e)
    with g f1 show ?thesis by (simp add: select_country_def)
  next
    case (Returns response)
    obtain d s2 where c: "country_dropdown (bs (resp_text response)) s1 = (d, s2)"
      by (cases "country_dropdown (bs (resp_text response)) s1")
    from frame_dropdown [of s1 "bs (resp_text response)"] c have "frame s1 s2" by simp
    with f1 have f2: "frame s s2" by (rule frame_trans)
    obtain l s3 where i: "india_links_loop (sp_india_links (bs (resp_text response))) s2 = (l, s3)"
      by (cases "india_links_loop (sp_india_links (bs (resp_text response))) s2")
    from frame_india_links [of s2 "sp_india_links (bs (resp_text response))"] i
    have "frame s2 s3" by simp
    with f2 have f3: "frame s s3" by (rule frame_trans)
    show ?thesis
      using g Returns c i f2 f3
      by (cases d) (simp_all add: select_country_def Let_def split: bool.splits)
  qed
qed

lemma frame_slot_links: "frame s (snd (slot_links_loop links s))"
proof (induction links arbitrary: s)
  case Nil
  then show ?case by (simp add: frame_refl)
next
  case (Cons href rest)
  show ?case
  proof (cases "href \<noteq> []")
    case False
    with Cons show ?thesis by simp
  next
    case True
    obtain r s1 where g: "session_get (absolute s href) s = (r, s1)"
      by (cases "session_get (absolute s href) s")
    note f = frame_get [OF g]
    show ?thesis
    proof (cases r)
      case (Raises e)
      with True g f show ?thesis by simp
    next
      case (Returns resp)
      show ?thesis
      proof (cases "resp_status_code resp = 200")
        case True
        with \<open>href \<noteq> []\<close> g f Returns show ?thesis by (simp add: frame_slot_booking_url)
      next
        case False
        from frame_trans [OF f Cons.IH [of s1]]
        show ?thesis using \<open>href \<noteq> []\<close> g Returns False by simp
      qed
    qed
  qed
qed

lemma frame_slot_keywords: "frame s (snd (slot_keywords_loop sp kws s))"
proof (induction kws arbitrary: s)
  case Nil
  then show ?case by (simp add: frame_refl)
next
  case (Cons keyword rest)
  let ?links = "if sp_links_by_text sp keyword = [] then sp_links_by_href sp keyword
                else sp_links_by_text sp keyword"
  obtain r s1 where l: "slot_links_loop ?links s = (r, s1)"
    by (cases "slot_links_loop ?links s")
  from frame_slot_links [of s ?links] l have f: "frame s s1" by simp
  show ?case
  proof (cases r)
    case (Inl e)
    with l f show ?thesis by (simp add: Let_def)
  next
    case (Inr found)
    show ?thesis
    proof (cases found)
      case None
      from frame_trans [OF f Cons.IH [of s1]]
      show ?thesis using l Inr None by (simp add: Let_def)
    next
      case (Some href)
      with l f Inr show ?thesis by (simp add: Let_def)
    qed
  qed
qed

lemma frame_navigate: "frame s (snd (navigate_to_slot_page bs s))"
proof -
  obtain r s1 where g: "session_get (imat_url s) s = (r, s1)"
    by (cases "session_get (imat_url s) s")
  note f1 = frame_get [OF g]
  show ?thesis
  proof (cases r)
    case (Raises e)
    with g f1 show ?thesis by (simp add: navigate_to_slot_page_def)
  next
    case (Returns response)
    obtain k s2 where l: "slot_keywords_loop (bs (resp_text response)) slot_keywords s1 = (k, s2)"
      by (cases "slot_keywords_loop (bs (resp_text response)) slot_keywords s1")
    from frame_slot_keywords [of s1 "bs (resp_text response)" slot_keywords] l
    have "frame s1 s2" by simp
    with f1 have f2: "frame s s2" by (rule frame_trans)
    show ?thesis
      using g Returns l f2
      by (simp add: navigate_to_slot_page_def split: sum.splits option.splits)
  qed
qed

section \<open>Session initialisation\<close>

lemma initialize_session_unfold:
  assumes "login_to_system bs (self\<lparr>trace := trace self @ [InitializeSession]\<rparr>) = (logged, s1)"
    and "select_country bs s1 = (selected, s2)"
    and "navigate_to_slot_page bs s2 = (href, s3)"
  shows "initialize_session bs self =
           (if logged
            then (True, s3\<lparr>slot_booking_url := Some href, session_initialized := True\<rparr>)
            else (False, s1))"
proof -
  from select_country_succeeds [of bs s1] assms(2) have "selected" by simp
  with assms show ?thesis by (simp add: initialize_session_def)
qed

lemma initialize_session_frame:
  "\<exists>sub. trace (snd (initialize_session bs self)) = trace self @ InitializeSession # sub
         \<and> InitializeSession \<notin> set sub"
    "imat_url (snd (initialize_session bs self)) = imat_url self"
    "request_counter (snd (initialize_session bs self)) = request_counter self"
    "session_initialized (snd (initialize_session bs self))
         = (fst (initialize_session bs self) \<or> session_initialized self)"
proof -
  let ?s0 = "self\<lparr>trace := trace self @ [InitializeSession]\<rparr>"
  obtain logged s1 where l: "login_to_system bs ?s0 = (logged, s1)"
    by (cases "login_to_system bs ?s0")
  obtain selected s2 where c: "select_country bs s1 = (selected, s2)"
    by (cases "select_country bs s1")
  obtain href s3 where n: "navigate_to_slot_page bs s2 = (href, s3)"
    by (cases "navigate_to_slot_page bs s2")
  note u = initialize_session_unfold [OF l c n]
  from frame_login [of ?s0 bs] l have f1: "frame ?s0 s1" by simp
  from frame_select_country [of s1 bs] c have "frame s1 s2" by simp
  with f1 have f2: "frame ?s0 s2" by (rule frame_trans)
  from frame_navigate [of s2 bs] n have "frame s2 s3" by simp
  with f2 have f3: "frame ?s0 s3" by (rule frame_trans)
  let ?s4 = "s3\<lparr>slot_booking_url := Some href, session_initialized := True\<rparr>"
  have t1: "\<exists>sub. trace s1 = trace self @ InitializeSession # sub \<and> InitializeSession \<notin> set sub"
    using f1 by (auto simp: frame_def)
  have t3: "\<exists>sub. trace ?s4 = trace self @ InitializeSession # sub \<and> InitializeSession \<notin> set sub"
    using f3 by (auto simp: frame_def)
  show "\<exists>sub. trace (snd (initialize_session bs self)) = trace self @ InitializeSession # sub
         \<and> InitializeSession \<notin> set sub"
    unfolding u using t1 t3 by (cases logged) simp_all
  show "imat_url (snd (initialize_session bs self)) = imat_url self"
    unfolding u using f1 f3 by (cases logged) (simp_all add: frame_def)
  show "request_counter (snd (initialize_session bs self)) = request_counter self"
    unfolding u using f1 f3 by (cases logged) (simp_all add: frame_def)
  show "session_initialized (snd (initialize_session bs self))
         = (fst (initialize_session bs self) \<or> session_initialized self)"
    unfolding u using f1 f3 by (cases logged) (simp_all add: frame_def)
qed

lemma initialize_session_login:
  "fst (initialize_session bs self)
     = fst (login_to_system bs (self\<lparr>trace := trace self @ [InitializeSession]\<rparr>))"
proof -
  let ?s0 = "self\<lparr>trace := trace self @ [InitializeSession]\<rparr>"
  obtain logged s1 where l: "login_to_system bs ?s0 = (logged, s1)"
    by (cases "login_to_system bs ?s0")
  obtain selected s2 where c: "select_country bs s1 = (selected, s2)"
    by (cases "select_country bs s1")
  obtain href s3 where n: "navigate_to_slot_page bs s2 = (href, s3)"
    by (cases "navigate_to_slot_page bs s2")
  show ?thesis
    unfolding initialize_session_unfold [OF l c n] l by simp
qed

lemma login_non_200:
  assumes "truthy (username self)" and "truthy (password self)"
    and "net_pending self = Returns page # Returns login_response # rest"
    and "sp_login_form (bs (resp_text page)) = Some login_form"
    and "resp_status_code login_response \<noteq> 200"
  shows "login_to_system bs self =
           (True, self\<lparr>net_pending := rest,
                       trace := trace self @
                         [HttpGet (imat_url self),
                          HttpPost (absolute self (dict_get (form_attrs login_form) ''action'' []))]\<rparr>)"
  using assms
  by (simp add: login_to_system_def session_get_def session_post_def session_call_def Let_def
      absolute_def base_url_def)

text \<open>
  Claim C9. With credentials configured, when the entry page holds a login form
  and the request that submits the credentials is answered with a status other
  than 200, \<^verbatim>\<open>login_to_system\<close> falls through to its last line: it returns
  \<^verbatim>\<open>True\<close>, has made exactly the two requests, and leaves \<^verbatim>\<open>is_logged_in\<close> as it
  was. \<^verbatim>\<open>initialize_session\<close> then goes on through the other two steps and reports
  success.
\<close>

theorem login_non_200_reports_success:
  assumes "truthy (username self)" and "truthy (password self)"
    and "net_pending self = Returns page # Returns login_response # rest"
    and "sp_login_form (bs (resp_text page)) = Some login_form"
    and "resp_status_code login_response \<noteq> 200"
  shows "login_to_system bs self =
           (True, self\<lparr>net_pending := rest,
                       trace := trace self @
                         [HttpGet (imat_url self),
                          HttpPost (absolute self (dict_get (form_attrs login_form) ''action'' []))]\<rparr>)
         \<and> is_logged_in (snd (login_to_system bs self)) = is_logged_in self
         \<and> fst (initialize_session bs self)
         \<and> session_initialized (snd (initialize_session bs self))"
proof -
  have a: "login_to_system bs self =
           (True, self\<lparr>net_pending := rest,
                       trace := trace self @
                         [HttpGet (imat_url self),
                          HttpPost (absolute self (dict_get (form_attrs login_form) ''action'' []))]\<rparr>)"
    using assms by (rule login_non_200)
  let ?s0 = "self\<lparr>trace := trace self @ [InitializeSession]\<rparr>"
  have "fst (login_to_system bs ?s0)"
    using login_non_200 [of ?s0 page login_response rest bs login_form] assms by simp
  then have i: "fst (initialize_session bs self)"
    by (simp add: initialize_session_login)
  with initialize_session_frame(4) [of bs self]
  have "session_initialized (snd (initialize_session bs self))" by simp
  with a i show ?thesis by simp
qed

text \<open>
  The login form posts to \<^verbatim>\<open>/do_login\<close> and the answer is a status 500: the login
  step reports success and the monitor is not logged in.
\<close>

theorem login_non_200_reports_success_witness:
  "truthy (username rejected_login_monitor) \<and> truthy (password rejected_login_monitor)
   \<and> sp_login_form (example_parser (resp_text login_redirect))
        = Some \<lparr>form_attrs = [(''action'', ''/do_login'')]\<rparr>
   \<and> resp_status_code server_error \<noteq> 200
   \<and> fst (login_to_system example_parser rejected_login_monitor)
   \<and> \<not> is_logged_in (snd (login_to_system example_parser rejected_login_monitor))
   \<and> trace (snd (login_to_system example_parser rejected_login_monitor))
        = [HttpGet ''https://www.nta.ac.in/IMAT'', HttpPost ''https://www.nta.ac.in/do_login'']
   \<and> fst (initialize_session example_parser rejected_login_monitor)"
proof -
  have h1: "truthy (username rejected_login_monitor)" by code_simp
  have h2: "truthy (password rejected_login_monitor)" by code_simp
  have h3: "net_pending rejected_login_monitor
              = Returns login_redirect # Returns server_error
                  # [Returns plain_response, Returns plain_response]"
    by (simp add: rejected_login_monitor_def new_monitor_def)
  have h4: "sp_login_form (example_parser (resp_text login_redirect))
              = Some \<lparr>form_attrs = [(''action'', ''/do_login'')]\<rparr>"
    by (simp add: example_parser_def login_redirect_def login_page_def)
  have h5: "resp_status_code server_error \<noteq> 200"
    by (simp add: server_error_def)
  note T = login_non_200_reports_success
    [where self = rejected_login_monitor and bs = example_parser and page = login_redirect
       and login_response = server_error
       and login_form = "\<lparr>form_attrs = [(''action'', ''/do_login'')]\<rparr>",
     OF h1 h2 h3 h4 h5]
  have l: "\<not> is_logged_in rejected_login_monitor"
    by (simp add: rejected_login_monitor_def new_monitor_def)
  have a: "absolute rejected_login_monitor
             (dict_get (form_attrs \<lparr>form_attrs = [(''action'', ''/do_login'')]\<rparr>) ''action'' [])
           = ''https://www.nta.ac.in/do_login''"
    by code_simp
  have u: "imat_url rejected_login_monitor = ''https://www.nta.ac.in/IMAT''"
    by (simp add: rejected_login_monitor_def new_monitor_def)
  have t: "trace rejected_login_monitor = []"
    by (simp add: rejected_login_monitor_def new_monitor_def)
  from T have c1: "fst (login_to_system example_parser rejected_login_monitor)" by simp
  from T l have c2: "\<not> is_logged_in (snd (login_to_system example_parser rejected_login_monitor))"
    by simp
  from T have c3: "trace (snd (login_to_system example_parser rejected_login_monitor))
        = [HttpGet ''https://www.nta.ac.in/IMAT'', HttpPost ''https://www.nta.ac.in/do_login'']"
    unfolding a u by (simp add: t)
  from T have c4: "fst (initialize_session example_parser rejected_login_monitor)" by simp
  from h1 h2 h4 h5 c1 c2 c3 c4 show ?thesis by (intro conjI)
qed

lemma session_get_down:
  "net_pending s = [] \<or> net_pending s = Raises e # rest \<Longrightarrow>
     \<exists>e' s'. session_get u s = (Raises e', s')"
  by (auto simp: session_get_def session_call_def)

lemma login_get_raises:
  assumes "truthy (username self)" and "truthy (password self)"
    and "net_pending self = [] \<or> net_pending self = Raises e # rest"
  shows "\<not> fst (login_to_system bs self)"
proof -
  from session_get_down [OF assms(3)] obtain e' s' where
    "session_get (imat_url self) self = (Raises e', s')" by blast
  with assms(1,2) show ?thesis by (simp add: login_to_system_def)
qed

lemma login_post_raises:
  assumes "truthy (username self)" and "truthy (password self)"
    and "net_pending self = Returns page # Raises e # rest"
    and "sp_login_form (bs (resp_text page)) = Some login_form"
  shows "\<not> fst (login_to_system bs self)"
  using assms
  by (simp add: login_to_system_def session_get_def session_post_def session_call_def Let_def)

lemma initialize_session_aborted:
  assumes "\<not> fst (login_to_system bs (self\<lparr>trace := trace self @ [InitializeSession]\<rparr>))"
  shows "\<not> fst (initialize_session bs self)
         \<and> session_initialized (snd (initialize_session bs self)) = session_initialized self"
proof -
  from assms have "\<not> fst (initialize_session bs self)"
    by (simp add: initialize_session_login)
  with initialize_session_frame(4) [of bs self] show ?thesis by simp
qed

lemma navigate_get_raises:
  assumes "net_pending s = [] \<or> net_pending s = Raises e # rest"
  shows "fst (navigate_to_slot_page bs s) = imat_url s"
proof -
  from session_get_down [OF assms] obtain e' s' where
    g: "session_get (imat_url s) s = (Raises e', s')" by blast
  from frame_get [OF g] have "imat_url s' = imat_url s" by (simp add: frame_def)
  with g show ?thesis by (simp add: navigate_to_slot_page_def)
qed

lemma initialize_session_navigation_down:
  assumes "fst (login_to_system bs (self\<lparr>trace := trace self @ [InitializeSession]\<rparr>))"
    and "net_pending (snd (select_country bs
             (snd (login_to_system bs (self\<lparr>trace := trace self @ [InitializeSession]\<rparr>))))) = []
         \<or> net_pending (snd (select_country bs
             (snd (login_to_system bs (self\<lparr>trace := trace self @ [InitializeSession]\<rparr>)))))
             = Raises e # rest"
  shows "fst (initialize_session bs self)
         \<and> session_initialized (snd (initialize_session bs self))
         \<and> slot_booking_url (snd (initialize_session bs self)) = Some (imat_url self)"
proof -
  let ?s0 = "self\<lparr>trace := trace self @ [InitializeSession]\<rparr>"
  obtain logged s1 where l: "login_to_system bs ?s0 = (logged, s1)"
    by (cases "login_to_system bs ?s0")
  obtain selected s2 where c: "select_country bs s1 = (selected, s2)"
    by (cases "select_country bs s1")
  obtain href s3 where n: "navigate_to_slot_page bs s2 = (href, s3)"
    by (cases "navigate_to_slot_page bs s2")
  from assms(1) l have logged by simp
  from assms(2) l c have d: "net_pending s2 = [] \<or> net_pending s2 = Raises e # rest" by simp
  from frame_login [of ?s0 bs] l have "frame ?s0 s1" by simp
  moreover from frame_select_country [of s1 bs] c have "frame s1 s2" by simp
  ultimately have "frame ?s0 s2" by (rule frame_trans)
  then have "imat_url s2 = imat_url self" by (simp add: frame_def)
  with navigate_get_raises [OF d, of bs] n have "href = imat_url self" by simp
  with initialize_session_unfold [OF l c n] \<open>logged\<close> show ?thesis by simp
qed

lemma slot_keywords_loop_nothing:
  assumes "\<forall>k. sp_links_by_text sp k = [] \<and> sp_links_by_href sp k = []"
  shows "slot_keywords_loop sp kws s = (Inr None, s)"
  using assms by (induction kws arbitrary: s) (simp_all add: Let_def)

lemma initialize_session_nothing_found:
  assumes "truthy (username self)" and "truthy (password self)"
    and "net_pending self = Returns p1 # Returns p2 # Returns p3 # rest"
    and "sp_login_form (bs (resp_text p1)) = None"
    and "sp_country_select (bs (resp_text p2)) = None"
    and "sp_india_links (bs (resp_text p2)) = []"
    and "\<forall>k. sp_links_by_text (bs (resp_text p3)) k = []
             \<and> sp_links_by_href (bs (resp_text p3)) k = []"
  shows "initialize_session bs self =
           (True, self\<lparr>slot_booking_url := Some (imat_url self), session_initialized := True,
                       net_pending := rest,
                       trace := trace self @
                         [InitializeSession, HttpGet (imat_url self), HttpGet (imat_url self),
                          HttpGet (imat_url self)]\<rparr>)"
proof -
  let ?s0 = "self\<lparr>trace := trace self @ [InitializeSession]\<rparr>"
  let ?s1 = "self\<lparr>net_pending := Returns p2 # Returns p3 # rest,
                   trace := trace self @ [InitializeSession, HttpGet (imat_url self)]\<rparr>"
  let ?s2 = "self\<lparr>net_pending := Returns p3 # rest,
                   trace := trace self @ [InitializeSession, HttpGet (imat_url self),
                                          HttpGet (imat_url self)]\<rparr>"
  let ?s3 = "self\<lparr>net_pending := rest,
                   trace := trace self @ [InitializeSession, HttpGet (imat_url self),
                                          HttpGet (imat_url self), HttpGet (imat_url self)]\<rparr>"
  have l: "login_to_system bs ?s0 = (True, ?s1)"
    using assms(1-4)
    by (simp add: login_to_system_def session_get_def session_call_def)
  have c: "select_country bs ?s1 = (True, ?s2)"
    using assms(5,6)
    by (simp add: select_country_def country_dropdown_def session_get_def session_call_def)
  have n: "navigate_to_slot_page bs ?s2 = (imat_url self, ?s3)"
    using assms(7)
    by (simp add: navigate_to_slot_page_def session_get_def session_call_def
        slot_keywords_loop_nothing)
  show ?thesis
    unfolding initialize_session_unfold [OF l c n] by simp
qed

text \<open>
  Claim C3, amended. In \<^verbatim>\<open>initialize_session\<close>, with credentials configured:
  \<^item> a network failure of the login step (of its request for the entry page, or
    of the request that submits the form) aborts: the result is failure and
    \<^verbatim>\<open>session_initialized\<close> stays as it was;
  \<^item> a network failure at the start of the navigation step does not abort: the
    result is success, \<^verbatim>\<open>session_initialized\<close> is set and the entry URL is taken
    as the slot page;
  \<^item> when the pages hold no login form, no country control or link, and no slot
    link, every step is skipped without error: the result is success after
    exactly three requests for the entry page.
\<close>

theorem initialize_session_transport_failures:
  "(truthy (username self) \<and> truthy (password self)
      \<and> (net_pending self = [] \<or> net_pending self = Raises e # rest)
      \<longrightarrow> \<not> fst (initialize_session bs self)
          \<and> session_initialized (snd (initialize_session bs self)) = session_initialized self)
   \<and> (truthy (username self) \<and> truthy (password self)
      \<and> net_pending self = Returns page # Raises e # rest
      \<and> sp_login_form (bs (resp_text page)) = Some login_form
      \<longrightarrow> \<not> fst (initialize_session bs self)
          \<and> session_initialized (snd (initialize_session bs self)) = session_initialized self)
   \<and> (fst (login_to_system bs (self\<lparr>trace := trace self @ [InitializeSession]\<rparr>))
      \<and> (net_pending (snd (select_country bs
             (snd (login_to_system bs (self\<lparr>trace := trace self @ [InitializeSession]\<rparr>))))) = []
          \<or> net_pending (snd (select_country bs
             (snd (login_to_system bs (self\<lparr>trace := trace self @ [InitializeSession]\<rparr>)))))
             = Raises e # rest)
      \<longrightarrow> fst (initialize_session bs self)
          \<and> session_initialized (snd (initialize_session bs self))
          \<and> slot_booking_url (snd (initialize_session bs self)) = Some (imat_url self))
   \<and> (truthy (username self) \<and> truthy (password self)
      \<and> net_pending self = Returns p1 # Returns p2 # Returns p3 # rest
      \<and> sp_login_form (bs (resp_text p1)) = None
      \<and> sp_country_select (bs (resp_text p2)) = None
      \<and> sp_india_links (bs (resp_text p2)) = []
      \<and> (\<forall>k. sp_links_by_text (bs (resp_text p3)) k = []
               \<and> sp_links_by_href (bs (resp_text p3)) k = [])
      \<longrightarrow> initialize_session bs self =
           (True, self\<lparr>slot_booking_url := Some (imat_url self), session_initialized := True,
                       net_pending := rest,
                       trace := trace self @
                         [InitializeSession, HttpGet (imat_url self), HttpGet (imat_url self),
                          HttpGet (imat_url self)]\<rparr>))"
proof (intro conjI impI)
  let ?s0 = "self\<lparr>trace := trace self @ [InitializeSession]\<rparr>"
  {
    assume a: "truthy (username self) \<and> truthy (password self)
      \<and> (net_pending self = [] \<or> net_pending self = Raises e # rest)"
    then have "\<not> fst (login_to_system bs ?s0)"
      using login_get_raises [of ?s0 e rest bs] by simp
    note r = initialize_session_aborted [OF this]
    from r show "\<not> fst (initialize_session bs self)" by simp
    from r show "session_initialized (snd (initialize_session bs self)) = session_initialized self"
      by simp
  }
  {
    assume a: "truthy (username self) \<and> truthy (password self)
      \<and> net_pending self = Returns page # Raises e # rest
      \<and> sp_login_form (bs (resp_text page)) = Some login_form"
    then have "\<not> fst (login_to_system bs ?s0)"
      using login_post_raises [of ?s0 page e rest bs login_form] by simp
    note r = initialize_session_aborted [OF this]
    from r show "\<not> fst (initialize_session bs self)" by simp
    from r show "session_initialized (snd (initialize_session bs self)) = session_initialized self"
      by simp
  }
  {
    assume a: "fst (login_to_system bs ?s0)
      \<and> (net_pending (snd (select_country bs (snd (login_to_system bs ?s0)))) = []
          \<or> net_pending (snd (select_country bs (snd (login_to_system bs ?s0))))
             = Raises e # rest)"
    then have r: "fst (initialize_session bs self)
         \<and> session_initialized (snd (initialize_session bs self))
         \<and> slot_booking_url (snd (initialize_session bs self)) = Some (imat_url self)"
      using initialize_session_navigation_down [of bs self e rest] by blast
    from r show "fst (initialize_session bs self)" by simp
    from r show "session_initialized (snd (initialize_session bs self))" by simp
    from r show "slot_booking_url (snd (initialize_session bs self)) = Some (imat_url self)"
      by simp
  }
  {
    assume a: "truthy (username self) \<and> truthy (password self)
      \<and> net_pending self = Returns p1 # Returns p2 # Returns p3 # rest
      \<and> sp_login_form (bs (resp_text p1)) = None
      \<and> sp_country_select (bs (resp_text p2)) = None
      \<and> sp_india_links (bs (resp_text p2)) = []
      \<and> (\<forall>k. sp_links_by_text (bs (resp_text p3)) k = []
               \<and> sp_links_by_href (bs (resp_text p3)) k = [])"
    then show "initialize_session bs self =
           (True, self\<lparr>slot_booking_url := Some (imat_url self), session_initialized := True,
                       net_pending := rest,
                       trace := trace self @
                         [InitializeSession, HttpGet (imat_url self), HttpGet (imat_url self),
                          HttpGet (imat_url self)]\<rparr>)"
      using initialize_session_nothing_found [of self p1 p2 p3 rest bs] by blast
  }
qed

text \<open>
  Claim C3 as stated fails: the third request, the one of the navigation step,
  fails on the network, and \<^verbatim>\<open>initialize_session\<close> still returns success with
  \<^verbatim>\<open>session_initialized\<close> set.
\<close>

theorem initialize_session_navigation_failure_counterexample:
  "net_pending navigation_failure_monitor
     = [Returns plain_response, Returns plain_response, Raises RequestException]
   \<and> initialize_session example_parser navigation_failure_monitor
     = (True, navigation_failure_monitor
               \<lparr>slot_booking_url := Some ''https://www.nta.ac.in/IMAT'',
                session_initialized := True, net_pending := [],
                trace := [InitializeSession, HttpGet ''https://www.nta.ac.in/IMAT'',
                          HttpGet ''https://www.nta.ac.in/IMAT'',
                          HttpGet ''https://www.nta.ac.in/IMAT'']\<rparr>)"
  by code_simp

text \<open>
  A monitor whose first request fails is not initialised; a monitor whose third
  request fails is.
\<close>

theorem initialize_session_transport_failures_witness:
  "truthy (username offline_monitor) \<and> truthy (password offline_monitor)
   \<and> net_pending offline_monitor = [Raises RequestException]
   \<and> \<not> fst (initialize_session example_parser offline_monitor)
   \<and> \<not> session_initialized (snd (initialize_session example_parser offline_monitor))
   \<and> fst (login_to_system example_parser
             (navigation_failure_monitor
                \<lparr>trace := trace navigation_failure_monitor @ [InitializeSession]\<rparr>))
   \<and> net_pending (snd (select_country example_parser
          (snd (login_to_system example_parser
             (navigation_failure_monitor
                \<lparr>trace := trace navigation_failure_monitor @ [InitializeSession]\<rparr>)))))
        = [Raises RequestException]
   \<and> fst (initialize_session example_parser navigation_failure_monitor)
   \<and> session_initialized (snd (initialize_session example_parser navigation_failure_monitor))
   \<and> slot_booking_url (snd (initialize_session example_parser navigation_failure_monitor))
        = Some ''https://www.nta.ac.in/IMAT''"
proof -
  let ?n0 = "navigation_failure_monitor
                \<lparr>trace := trace navigation_failure_monitor @ [InitializeSession]\<rparr>"
  have a1: "truthy (username offline_monitor)" by code_simp
  have a2: "truthy (password offline_monitor)" by code_simp
  have a3: "net_pending offline_monitor = [Raises RequestException]" by code_simp
  have a4: "session_initialized offline_monitor = False" by code_simp
  have b1: "fst (login_to_system example_parser ?n0)" by code_simp
  have b2: "net_pending (snd (select_country example_parser
              (snd (login_to_system example_parser ?n0)))) = [Raises RequestException]"
    by code_simp
  have b3: "imat_url navigation_failure_monitor = ''https://www.nta.ac.in/IMAT''"
    by code_simp
  note A = initialize_session_transport_failures
    [where self = offline_monitor and bs = example_parser and e = RequestException
       and rest = "[]", THEN conjunct1, THEN mp]
  note B = initialize_session_transport_failures
    [where self = navigation_failure_monitor and bs = example_parser
       and e = RequestException and rest = "[]",
     THEN conjunct2, THEN conjunct2, THEN conjunct1, THEN mp]
  from a1 a2 a3 have "\<not> fst (initialize_session example_parser offline_monitor)
          \<and> session_initialized (snd (initialize_session example_parser offline_monitor))
              = session_initialized offline_monitor"
    by (intro A) simp
  with a4 have c1: "\<not> fst (initialize_session example_parser offline_monitor)"
    and c2: "\<not> session_initialized (snd (initialize_session example_parser offline_monitor))"
    by simp_all
  from b1 b2 have "fst (initialize_session example_parser navigation_failure_monitor)
          \<and> session_initialized (snd (initialize_session example_parser navigation_failure_monitor))
          \<and> slot_booking_url (snd (initialize_session example_parser navigation_failure_monitor))
               = Some (imat_url navigation_failure_monitor)"
    by (intro B) simp
  then have d1: "fst (initialize_session example_parser navigation_failure_monitor)"
    and d2: "session_initialized (snd (initialize_session example_parser navigation_failure_monitor))"
    and d3: "slot_booking_url (snd (initialize_session example_parser navigation_failure_monitor))
               = Some ''https://www.nta.ac.in/IMAT''"
    unfolding b3 by simp_all
  from a1 a2 a3 c1 c2 b1 b2 d1 d2 d3 show ?thesis by (intro conjI)
qed

section \<open>Fetching a page\<close>



lemma get_page_content_expired:
  assumes "ensure_session bs (self\<lparr>request_counter := request_counter self + 1\<rparr>) = (True, s2)"
    and "get_checked s2 = (Inr response, s3)"
    and "expired response"
    and "initialize_session bs s3 = (ok, s4)"
    and "get_checked s4 = (r, s5)"
  shows "get_page_content bs self =
           (if \<not> ok then (None, s4)
            else (case r of
                    Inr response2 \<Rightarrow> (Some (resp_text response2), s5)
                  | Inl RequestException \<Rightarrow> recover bs s5
                  | Inl OtherException \<Rightarrow> (None, s5)))"
  using assms
  by (simp add: get_page_content_def get_page_content_try_def split: sum.splits exn.splits)


text \<open>
  Claim C10. When the first fetch ended on a login or country page, the session
  was initialised again and the repeated fetch succeeds, the body of the
  repeated fetch is the value of \<^verbatim>\<open>get_page_content\<close>, whatever its final URL: the
  test for login and country pages is not made a second time.
\<close>

theorem get_page_content_returns_retry_unchecked:
  assumes "ensure_session bs (self\<lparr>request_counter := request_counter self + 1\<rparr>) = (True, s2)"
    and "get_checked s2 = (Inr response, s3)"
    and "expired response"
    and "initialize_session bs s3 = (True, s4)"
    and "get_checked s4 = (Inr response2, s5)"
  shows "get_page_content bs self = (Some (resp_text response2), s5)"
  using get_page_content_expired [OF assms] by simp

lemma redirected_ready_ok:
  "ensure_session example_parser
     (redirected_monitor\<lparr>request_counter := request_counter redirected_monitor + 1\<rparr>)
   = (True, redirected_ready)"
proof -
  have "fst (ensure_session example_parser
     (redirected_monitor\<lparr>request_counter := request_counter redirected_monitor + 1\<rparr>))"
    by code_simp
  then show ?thesis by (simp add: redirected_ready_def prod_eq_iff)
qed

lemma redirected_fetched_ok:
  "get_checked redirected_ready = (Inr login_redirect, redirected_fetched)"
proof -
  have "fst (get_checked redirected_ready) = Inr login_redirect"
    by code_simp
  then show ?thesis by (simp add: redirected_fetched_def prod_eq_iff)
qed

lemma login_redirect_expired: "expired login_redirect"
  by code_simp


text \<open>
  In the same run the repeated fetch ends on the login page again, and the
  markup of the login page is what \<^verbatim>\<open>get_page_content\<close> returns.
\<close>

theorem get_page_content_returns_retry_unchecked_witness:
  "expired login_redirect
   \<and> fst (get_page_content example_parser redirected_monitor)
       = Some ''<form id=loginForm></form>''
   \<and> net_pending (snd (get_page_content example_parser redirected_monitor)) = []"
proof -
  let ?s4 = "snd (initialize_session example_parser redirected_fetched)"
  let ?s5 = "snd (get_checked ?s4)"
  have i: "initialize_session example_parser redirected_fetched = (True, ?s4)"
  proof -
    have "fst (initialize_session example_parser redirected_fetched)" by code_simp
    then show ?thesis by (simp add: prod_eq_iff)
  qed
  have g: "get_checked ?s4 = (Inr login_redirect, ?s5)"
  proof -
    have "fst (get_checked ?s4) = Inr login_redirect" by code_simp
    then show ?thesis by (simp add: prod_eq_iff)
  qed
  note T = get_page_content_returns_retry_unchecked
    [where bs = example_parser and self = redirected_monitor,
     OF redirected_ready_ok redirected_fetched_ok login_redirect_expired i g]
  have t: "resp_text login_redirect = ''<form id=loginForm></form>''"
    by (simp add: login_redirect_def)
  have n: "net_pending ?s5 = []" by code_simp
  from T t have r: "fst (get_page_content example_parser redirected_monitor)
       = Some ''<form id=loginForm></form>''" by simp
  from T n have e: "net_pending (snd (get_page_content example_parser redirected_monitor)) = []"
    by simp
  from login_redirect_expired r e show ?thesis by (intro conjI)
qed

section \<open>Failure accounting of the loop\<close>

lemma on_failure_effect:
  "consecutive_failures (on_failure st)
     = (if consecutive_failures st + 1 \<ge> 3 then 0 else consecutive_failures st + 1)"
  "sent (on_failure st)
     = sent st @ (if consecutive_failures st + 1 \<ge> 3
                  then [FailureAlert (consecutive_failures st + 1) (last_successful_check st)]
                  else [])"
  "last_successful_check (on_failure st) = last_successful_check st"
  by (simp_all add: on_failure_def)

lemma cycle_failed:
  assumes "fetch_fails bs st"
  shows "consecutive_failures (run_monitor_cycle bs clk st)
           = (if consecutive_failures st + 1 \<ge> 3 then 0 else consecutive_failures st + 1)"
    "sent (run_monitor_cycle bs clk st)
       = sent st @ (if consecutive_failures st + 1 \<ge> 3
                    then [FailureAlert (consecutive_failures st + 1) (last_successful_check st)]
                    else [])"
    "last_successful_check (run_monitor_cycle bs clk st) = last_successful_check st"
proof -
  obtain h m1 where g: "get_page_content bs (mon st) = (h, m1)"
    by (cases "get_page_content bs (mon st)")
  with assms have f: "\<not> truthy h" by (simp add: fetch_fails_def)
  have c: "run_monitor_cycle bs clk st
             = (on_failure (st\<lparr>mon := m1\<rparr>))
                 \<lparr>sleeps := sleeps (on_failure (st\<lparr>mon := m1\<rparr>)) @ [wait_time (current_hour clk)]\<rparr>"
    unfolding run_monitor_cycle_def g using f by (simp add: Let_def)
  show "consecutive_failures (run_monitor_cycle bs clk st)
           = (if consecutive_failures st + 1 \<ge> 3 then 0 else consecutive_failures st + 1)"
    unfolding c by (simp add: on_failure_effect)
  show "sent (run_monitor_cycle bs clk st)
       = sent st @ (if consecutive_failures st + 1 \<ge> 3
                    then [FailureAlert (consecutive_failures st + 1) (last_successful_check st)]
                    else [])"
    unfolding c by (simp add: on_failure_effect)
  show "last_successful_check (run_monitor_cycle bs clk st) = last_successful_check st"
    unfolding c by (simp add: on_failure_effect)
qed

lemma cycle_succeeded:
  assumes "\<not> fetch_fails bs st"
  shows "consecutive_failures (run_monitor_cycle bs clk st) = 0"
proof -
  obtain h m1 where g: "get_page_content bs (mon st) = (h, m1)"
    by (cases "get_page_content bs (mon st)")
  with assms have f: "truthy h" by (simp add: fetch_fails_def)
  show ?thesis
    unfolding run_monitor_cycle_def g using f by (simp add: Let_def on_success_def)
qed

lemma div_mod_step:
  fixes c n :: nat
  assumes "c < 3"
  shows "(if c + 1 \<ge> 3 then 0 else c + 1) < 3"
    and "((if c + 1 \<ge> 3 then 0 else c + 1) + n) mod 3 = (c + Suc n) mod 3"
    and "(if c + 1 \<ge> 3 then (1::nat) else 0) + ((if c + 1 \<ge> 3 then 0 else c + 1) + n) div 3
           = (c + Suc n) div 3"
  using assms by (auto simp: not_le) presburger+

lemma failures_accumulate:
  assumes "consecutive_failures st < 3" and "all_fail bs clks st"
  shows "consecutive_failures (run_cycles bs clks st)
           = (consecutive_failures st + length clks) mod 3
         \<and> sent (run_cycles bs clks st)
           = sent st @ replicate ((consecutive_failures st + length clks) div 3)
                         (FailureAlert 3 (last_successful_check st))"
  using assms
proof (induction clks arbitrary: st)
  case Nil
  then show ?case by simp
next
  case (Cons clk clks)
  let ?c = "consecutive_failures st"
  let ?st' = "run_monitor_cycle bs clk st"
  from Cons.prems(2) have ff: "fetch_fails bs st" and rest: "all_fail bs clks ?st'"
    by simp_all
  note e = cycle_failed [OF ff, of clk]
  have c': "consecutive_failures ?st' = (if ?c + 1 \<ge> 3 then 0 else ?c + 1)"
    by (rule e(1))
  from div_mod_step(1) [OF Cons.prems(1)] c' have lt: "consecutive_failures ?st' < 3"
    by simp
  note ih = Cons.IH [OF lt rest]
  have alert: "(if ?c + 1 \<ge> 3 then [FailureAlert (?c + 1) (last_successful_check st)] else [])
                 = replicate (if ?c + 1 \<ge> 3 then 1 else 0)
                     (FailureAlert 3 (last_successful_check st))"
    using Cons.prems(1) by auto
  have cnt: "consecutive_failures (run_cycles bs (clk # clks) st) = (?c + length (clk # clks)) mod 3"
    using ih div_mod_step(2) [OF Cons.prems(1), of "length clks"] by (simp add: c')
  have "sent (run_cycles bs (clk # clks) st)
          = sent st @ replicate (if ?c + 1 \<ge> 3 then 1 else 0)
                        (FailureAlert 3 (last_successful_check st))
            @ replicate (((if ?c + 1 \<ge> 3 then 0 else ?c + 1) + length clks) div 3)
                        (FailureAlert 3 (last_successful_check st))"
    unfolding run_cycles.simps using ih unfolding c' e(2) e(3) alert by simp
  also have "\<dots> = sent st @ replicate ((?c + length (clk # clks)) div 3)
                        (FailureAlert 3 (last_successful_check st))"
    using div_mod_step(3) [OF Cons.prems(1), of "length clks"]
    by (simp add: replicate_add [symmetric] del: replicate_add)
  finally show ?case using cnt by simp
qed

text \<open>
  Claim C6. Start the loop with a failure counter of 0 and let every one of the
  next \<open>n\<close> iterations fail to fetch (the fetch yields \<^verbatim>\<open>None\<close> or an empty body).
  Then the counter stands at \<open>n mod 3\<close> and exactly \<open>n div 3\<close> failure alerts have
  been sent, each reporting three failures: one alert at the third failure, with
  the counter back at 0, none at the fourth and fifth, the next at the sixth.
  An iteration whose fetch yields a page sets the counter to 0.
\<close>

theorem failure_alert_every_third_failure:
  "(consecutive_failures st = 0 \<and> all_fail bs clks st \<longrightarrow>
      consecutive_failures (run_cycles bs clks st) = length clks mod 3
      \<and> sent (run_cycles bs clks st)
          = sent st @ replicate (length clks div 3) (FailureAlert 3 (last_successful_check st)))
   \<and> (\<not> fetch_fails bs st \<longrightarrow> consecutive_failures (run_monitor_cycle bs clk st) = 0)"
proof -
  have a: "consecutive_failures (run_cycles bs clks st) = length clks mod 3
      \<and> sent (run_cycles bs clks st)
          = sent st @ replicate (length clks div 3) (FailureAlert 3 (last_successful_check st))"
    if "consecutive_failures st = 0 \<and> all_fail bs clks st"
  proof -
    from that have "consecutive_failures st < 3" and "all_fail bs clks st" by simp_all
    from failures_accumulate [OF this] that show ?thesis by simp
  qed
  have b: "consecutive_failures (run_monitor_cycle bs clk st) = 0" if "\<not> fetch_fails bs st"
    using that by (rule cycle_succeeded)
  from a b show ?thesis by blast
qed

lemma outage_all_fail: "all_fail example_parser five_readings outage_loop"
  by code_simp

lemma outage_three_fail: "all_fail example_parser three_readings outage_loop"
  by code_simp

lemma recovering_fetches: "\<not> fetch_fails example_parser recovering_loop"
  by code_simp

text \<open>
  With the network down, three iterations send one alert and leave the counter
  at 0; five iterations still have sent one alert and leave it at 2. A fetch
  that succeeds after two failures sets it to 0.
\<close>

theorem failure_alert_every_third_failure_witness:
  "consecutive_failures outage_loop = 0
   \<and> all_fail example_parser three_readings outage_loop
   \<and> consecutive_failures (run_cycles example_parser three_readings outage_loop) = 0
   \<and> sent (run_cycles example_parser three_readings outage_loop)
        = [Startup, FailureAlert 3 0]
   \<and> all_fail example_parser five_readings outage_loop
   \<and> consecutive_failures (run_cycles example_parser five_readings outage_loop) = 2
   \<and> sent (run_cycles example_parser five_readings outage_loop) = [Startup, FailureAlert 3 0]
   \<and> consecutive_failures recovering_loop = 2
   \<and> \<not> fetch_fails example_parser recovering_loop
   \<and> consecutive_failures
        (run_monitor_cycle example_parser \<lparr>current_time = 1, current_hour = 10\<rparr> recovering_loop) = 0"
proof -
  have z: "consecutive_failures outage_loop = 0"
    by (simp add: outage_loop_def run_monitor_def)
  have s: "sent outage_loop = [Startup]" "last_successful_check outage_loop = 0"
    by (simp_all add: outage_loop_def run_monitor_def)
  have l3: "length three_readings = 3" by (simp add: three_readings_def)
  have l5: "length five_readings = 5" by (simp add: five_readings_def three_readings_def)
  have r2: "consecutive_failures recovering_loop = 2" by (simp add: recovering_loop_def)
  note T3 = failure_alert_every_third_failure
    [where st = outage_loop and bs = example_parser and clks = three_readings,
     THEN conjunct1, THEN mp, OF conjI, OF z outage_three_fail]
  note T5 = failure_alert_every_third_failure
    [where st = outage_loop and bs = example_parser and clks = five_readings,
     THEN conjunct1, THEN mp, OF conjI, OF z outage_all_fail]
  note TS = failure_alert_every_third_failure
    [where st = recovering_loop and bs = example_parser
       and clk = "\<lparr>current_time = 1, current_hour = 10\<rparr>",
     THEN conjunct2, THEN mp, OF recovering_fetches]
  from T3 have a1: "consecutive_failures
      (run_cycles example_parser three_readings outage_loop) = 0"
    unfolding l3 by simp
  from T3 have a2: "sent (run_cycles example_parser three_readings outage_loop)
        = [Startup, FailureAlert 3 0]"
    unfolding l3 s by simp
  from T5 have b1: "consecutive_failures (run_cycles example_parser five_readings outage_loop) = 2"
    unfolding l5 by simp
  from T5 have b2: "sent (run_cycles example_parser five_readings outage_loop)
        = [Startup, FailureAlert 3 0]"
    unfolding l5 s by simp
  from z outage_three_fail a1 a2 outage_all_fail b1 b2 r2 recovering_fetches TS
  show ?thesis by (intro conjI)
qed

end
